theory Spec2Isabelle
  imports Main "HOL-Library.AList"
begin

section \<open>Characters and strings\<close>

text \<open>
  The program works on Python \<open>str\<close> values, sequences of code points. A HOL
  \<^typ>\<open>char\<close> is read as the code point with the same number, so the model covers the
  code points 0 to 255. On that range \<open>str.strip()\<close> removes the code points 9 to 13,
  28 to 32, 133 and 160, \<open>str.lower()\<close> adds 32 to the letters \<open>A\<close> to \<open>Z\<close> and to the
  code points 192 to 222 except 215, the pattern \<open>\d\<close> matches \<open>0\<close> to \<open>9\<close> only and
  \<open>[a-zA-Z]\<close> the 52 ASCII letters. \<open>int()\<close> is the mathematical conversion of a
  decimal numeral (the interpreter's configurable limit on the number of digits is not
  modelled).
\<close>

definition code :: "char \<Rightarrow> nat" where
  "code c = of_char c"

definition is_space :: "char \<Rightarrow> bool" where
  "is_space c = (let n = code c in (9 \<le> n \<and> n \<le> 13) \<or> (28 \<le> n \<and> n \<le> 32) \<or> n = 133 \<or> n = 160)"

definition strip :: "string \<Rightarrow> string" where
  "strip s = rev (dropWhile is_space (rev (dropWhile is_space s)))"

definition is_upper :: "char \<Rightarrow> bool" where
  "is_upper c = (let n = code c in (65 \<le> n \<and> n \<le> 90) \<or> (192 \<le> n \<and> n \<le> 222 \<and> n \<noteq> 215))"

definition lower_char :: "char \<Rightarrow> char" where
  "lower_char c = (if is_upper c then char_of (code c + 32) else c)"

definition lower :: "string \<Rightarrow> string" where
  "lower s = map lower_char s"

definition is_digit :: "char \<Rightarrow> bool" where
  "is_digit c = (let n = code c in 48 \<le> n \<and> n \<le> 57)"

definition is_ascii_letter :: "char \<Rightarrow> bool" where
  "is_ascii_letter c = (let n = code c in (65 \<le> n \<and> n \<le> 90) \<or> (97 \<le> n \<and> n \<le> 122))"

text \<open>\<open>int(s)\<close> for a string of decimal digits.\<close>

definition py_int :: "string \<Rightarrow> int" where
  "py_int s = foldl (\<lambda>a c. 10 * a + int (code c - 48)) 0 s"

text \<open>\<open>s.split(sep)\<close> for a one-character separator: never an empty list.\<close>

fun split_on :: "char \<Rightarrow> string \<Rightarrow> string list" where
  "split_on sep [] = [ []]"
| "split_on sep (c # cs) =
     (if c = sep then [] # split_on sep cs
      else (case split_on sep cs of [] \<Rightarrow> [ [c]] | p # ps \<Rightarrow> (c # p) # ps))"

section \<open>Errors\<close>

text \<open>
  The exceptions the core raises: \<open>ValueError\<close> for a query that does not parse,
  \<open>RuntimeError\<close> when the optional lexical library is not installed, and the
  \<open>LookupError\<close> of the lexical library when its data is missing.
\<close>

datatype error = ValueError string | RuntimeError string | LookupError

section \<open>Length query parser\<close>

text \<open>\<open>re.fullmatch(r"\d+", text)\<close>\<close>

definition fullmatch_digits :: "string \<Rightarrow> bool" where
  "fullmatch_digits s = (s \<noteq> [] \<and> list_all is_digit s)"

text \<open>
  \<open>re.fullmatch(r"(\d*)-(\d*)", text)\<close>, returning the two groups. The hyphen is not
  a digit, so the first group is the longest prefix of digits.
\<close>

definition fullmatch_range :: "string \<Rightarrow> (string \<times> string) option" where
  "fullmatch_range s =
     (case dropWhile is_digit s of
        [] \<Rightarrow> None
      | c # hi \<Rightarrow> if c = CHR ''-'' \<and> list_all is_digit hi
                  then Some (takeWhile is_digit s, hi) else None)"

text \<open>The result is the tuple \<open>(min_len, max_len, exact)\<close>.\<close>

definition parse_length_query :: "string \<Rightarrow> error + (int option \<times> int option \<times> int option)" where
  "parse_length_query text0 =
     (let text = strip text0 in
      if text = [] then Inr (None, None, None)
      else if fullmatch_digits text then Inr (None, None, Some (py_int text))
      else (case fullmatch_range text of
              Some (lo, hi) \<Rightarrow>
                (let min_len = (if lo \<noteq> [] then Some (py_int lo) else None);
                     max_len = (if hi \<noteq> [] then Some (py_int hi) else None)
                 in if min_len = None \<and> max_len = None
                    then Inl (ValueError ''Invalid length range.'')
                    else Inr (min_len, max_len, None))
            | None \<Rightarrow> Inl (ValueError ''Invalid length. Use N or N-M or -M or N-.'')))"

section \<open>Position query parser\<close>

text \<open>
  \<open>re.fullmatch(r"(\d+)=([a-zA-Z])", p)\<close>, returning the two groups.
\<close>

definition fullmatch_position :: "string \<Rightarrow> (string \<times> char) option" where
  "fullmatch_position p =
     (case dropWhile is_digit p of
        [e, l] \<Rightarrow> if takeWhile is_digit p \<noteq> [] \<and> e = CHR ''='' \<and> is_ascii_letter l
                  then Some (takeWhile is_digit p, l) else None
      | _ \<Rightarrow> None)"

text \<open>
  A \<open>dict\<close> is an association list in insertion order with distinct keys;
  \<open>mapping[idx] = ch\<close> is \<^const>\<open>AList.update\<close>, which replaces the value of a key
  that is present and appends a new key at the end.
\<close>

type_synonym positions = "(int \<times> string) list"

fun positions_loop :: "string list \<Rightarrow> positions \<Rightarrow> error + positions" where
  "positions_loop [] mapping = Inr mapping"
| "positions_loop (part # parts) mapping =
     (let p = strip part in
      if p = [] then positions_loop parts mapping
      else (case fullmatch_position p of
              None \<Rightarrow> Inl (ValueError ''Invalid positions. Use like 1=a,3=e'')
            | Some (ds, l) \<Rightarrow>
                positions_loop parts (AList.update (py_int ds) (lower [l]) mapping)))"

definition parse_positions_query :: "string \<Rightarrow> error + positions" where
  "parse_positions_query text0 =
     (let text = strip text0 in
      if text = [] then Inr []
      else positions_loop (split_on CHR '','' text) [])"

section \<open>Position matching\<close>

text \<open>
  The loop over \<open>fixed_positions.items()\<close>. \<open>word[idx1 - 1]\<close> is a string of one
  character and is read only when \<open>1 \<le> idx1 \<le> len(word)\<close>.
\<close>

fun positions_items_loop :: "string \<Rightarrow> positions \<Rightarrow> bool" where
  "positions_items_loop word [] = True"
| "positions_items_loop word ((idx1, ch) # items) =
     (if idx1 \<le> 0 \<or> idx1 > int (length word) then False
      else if [word ! nat (idx1 - 1)] \<noteq> ch then False
      else positions_items_loop word items)"

definition word_matches_fixed_positions :: "string \<Rightarrow> positions \<Rightarrow> bool" where
  "word_matches_fixed_positions word fixed_positions =
     (if fixed_positions = [] then True else positions_items_loop word fixed_positions)"

section \<open>The lexical database\<close>

text \<open>
  The state of the optional lexical library: whether it was imported
  (\<open>nltk is not None\<close>), whether its corpus data is present locally, whether
  \<open>nltk.download\<close> would fetch the data, and the database itself as a black box:
  \<open>synsets e word pos\<close> holds when \<open>wn.synsets(word, pos=pos)\<close> is a non-empty list.
\<close>

record env =
  nltk_installed :: bool
  wordnet_data :: bool
  download_ok :: bool
  synsets :: "string \<Rightarrow> string \<Rightarrow> bool"

text \<open>
  \<open>ensure_wordnet\<close>: without the library a \<open>RuntimeError\<close>; with the data present
  nothing changes; otherwise the data is downloaded and the lookup tried once more, its
  \<open>LookupError\<close> escaping when the download did not bring the data.
\<close>

definition ensure_wordnet :: "env \<Rightarrow> error + env" where
  "ensure_wordnet e =
     (if \<not> nltk_installed e
      then Inl (RuntimeError ''NLTK not installed. Install requirements to use --pos filtering.'')
      else if wordnet_data e then Inr e
      else if download_ok e then Inr (e\<lparr>wordnet_data := True\<rparr>)
      else Inl LookupError)"

section \<open>Part-of-speech matching\<close>

text \<open>
  A \<open>set\<close> of strings is a list without duplicates, in the order the interpreter
  iterates it; \<open>desired.add(x)\<close> is \<open>set_add\<close>.
\<close>

definition set_add :: "'a \<Rightarrow> 'a list \<Rightarrow> 'a list" where
  "set_add x s = (if x \<in> set s then s else s @ [x])"

fun desired_loop :: "string list \<Rightarrow> string list \<Rightarrow> error + string list" where
  "desired_loop [] desired = Inr desired"
| "desired_loop (t # ts) desired =
     (let tnorm = lower (strip t) in
      if tnorm \<in> set [''noun'', ''n''] then desired_loop ts (set_add ''n'' desired)
      else if tnorm \<in> set [''verb'', ''v''] then desired_loop ts (set_add ''v'' desired)
      else if tnorm \<in> set [''adjective'', ''adj'', ''a'']
        then desired_loop ts (set_add ''s'' (set_add ''a'' desired))
      else Inl (ValueError ''POS must be noun, verb, or adjective''))"

fun synsets_loop :: "env \<Rightarrow> string \<Rightarrow> string list \<Rightarrow> bool" where
  "synsets_loop e word [] = False"
| "synsets_loop e word (pos # rest) =
     (if synsets e word pos then True else synsets_loop e word rest)"

definition word_matches_pos :: "env \<Rightarrow> string \<Rightarrow> string list \<Rightarrow> error + (bool \<times> env)" where
  "word_matches_pos e word pos_types =
     (if pos_types = [] then Inr (True, e)
      else (case ensure_wordnet e of
              Inl err \<Rightarrow> Inl err
            | Inr e' \<Rightarrow>
                (case desired_loop pos_types [] of
                   Inl err \<Rightarrow> Inl err
                 | Inr desired \<Rightarrow> Inr (synsets_loop e' word desired, e'))))"

section \<open>Filter engine\<close>

text \<open>
  The body of the loop of \<open>filter_words\<close> for one word: \<open>None\<close> is \<open>continue\<close>,
  \<open>Some w\<close> is \<open>results.append(w)\<close>, \<open>Inl\<close> an exception leaving the loop.
\<close>

definition filter_body ::
  "env \<Rightarrow> string \<Rightarrow> int option \<Rightarrow> int option \<Rightarrow> int option \<Rightarrow> positions \<Rightarrow> string list
     \<Rightarrow> error + (string option \<times> env)" where
  "filter_body e w0 min_len max_len exact_len fixed_positions pos_types =
     (let w = lower (strip w0); n = int (length w) in
      if w = [] then Inr (None, e)
      else if (case exact_len of Some x \<Rightarrow> n \<noteq> x | None \<Rightarrow> False) then Inr (None, e)
      else if (case min_len of Some x \<Rightarrow> n < x | None \<Rightarrow> False) then Inr (None, e)
      else if (case max_len of Some x \<Rightarrow> n > x | None \<Rightarrow> False) then Inr (None, e)
      else if \<not> word_matches_fixed_positions w fixed_positions then Inr (None, e)
      else if pos_types = [] then Inr (Some w, e)
      else (case word_matches_pos e w pos_types of
              Inl err \<Rightarrow> Inl err
            | Inr (b, e') \<Rightarrow> if \<not> b then Inr (None, e') else Inr (Some w, e')))"

fun filter_loop ::
  "env \<Rightarrow> string list \<Rightarrow> int option \<Rightarrow> int option \<Rightarrow> int option \<Rightarrow> positions \<Rightarrow> string list
     \<Rightarrow> string list \<Rightarrow> error + (string list \<times> env)" where
  "filter_loop e [] min_len max_len exact_len fixed_positions pos_types results = Inr (results, e)"
| "filter_loop e (w0 # ws) min_len max_len exact_len fixed_positions pos_types results =
     (case filter_body e w0 min_len max_len exact_len fixed_positions pos_types of
        Inl err \<Rightarrow> Inl err
      | Inr (None, e') \<Rightarrow>
          filter_loop e' ws min_len max_len exact_len fixed_positions pos_types results
      | Inr (Some w, e') \<Rightarrow>
          filter_loop e' ws min_len max_len exact_len fixed_positions pos_types (results @ [w]))"

definition filter_words ::
  "env \<Rightarrow> string list \<Rightarrow> int option \<Rightarrow> int option \<Rightarrow> int option \<Rightarrow> positions \<Rightarrow> string list
     \<Rightarrow> error + (string list \<times> env)" where
  "filter_words e words min_len max_len exact_len fixed_positions pos_types =
     filter_loop e words min_len max_len exact_len fixed_positions pos_types []"

section \<open>Notions of the specification\<close>

text \<open>
  The definitions of this section follow the words of the specification, not the code;
  the theorems below compare the code with them.
\<close>

text \<open>
  The invariant of a length constraint \<open>(min, max, exact)\<close> in the data model: exactly
  one of the exact value and the range is populated, an exact value is at least 1, and
  the minimum is at most the maximum when both are present.
\<close>

definition length_constraint_inv :: "int option \<times> int option \<times> int option \<Rightarrow> bool" where
  "length_constraint_inv r =
     (case r of (min_len, max_len, exact) \<Rightarrow>
        ((exact \<noteq> None) \<noteq> (min_len \<noteq> None \<or> max_len \<noteq> None)) \<and>
        (case exact of None \<Rightarrow> True | Some n \<Rightarrow> 1 \<le> n) \<and>
        (case min_len of None \<Rightarrow> True
         | Some a \<Rightarrow> (case max_len of None \<Rightarrow> True | Some b \<Rightarrow> a \<le> b)))"

text \<open>
  The segments of a position query: the trimmed text cut at the commas, every piece
  trimmed, the empty pieces left out.
\<close>

definition segments :: "string \<Rightarrow> string list" where
  "segments t = filter (\<lambda>p. p \<noteq> []) (map strip (split_on CHR '','' (strip t)))"

text \<open>
  A token of the shape digits, an equals sign and one letter, read from its end, with
  the index and the lowercased letter it contributes.
\<close>

definition position_token :: "string \<Rightarrow> (int \<times> string) option" where
  "position_token p =
     (case rev p of
        l # e # rds \<Rightarrow>
          if e = CHR ''='' \<and> is_ascii_letter l \<and> rds \<noteq> [] \<and> list_all is_digit rds
          then Some (py_int (rev rds), [lower_char l]) else None
      | _ \<Rightarrow> None)"

text \<open>A word is normalized by trimming and lowercasing.\<close>

definition normalize :: "string \<Rightarrow> string" where
  "normalize w = lower (strip w)"

text \<open>The length axis: every bound that is set must hold.\<close>

definition length_ok :: "int option \<Rightarrow> int option \<Rightarrow> int option \<Rightarrow> string \<Rightarrow> bool" where
  "length_ok min_len max_len exact_len w =
     ((case exact_len of None \<Rightarrow> True | Some x \<Rightarrow> int (length w) = x) \<and>
      (case min_len of None \<Rightarrow> True | Some x \<Rightarrow> x \<le> int (length w)) \<and>
      (case max_len of None \<Rightarrow> True | Some x \<Rightarrow> int (length w) \<le> x))"

text \<open>The character of a word at a 1-based index, when the word has one there.\<close>

definition char_at1 :: "string \<Rightarrow> int \<Rightarrow> string option" where
  "char_at1 w i = (if 1 \<le> i \<and> i \<le> int (length w) then Some [w ! nat (i - 1)] else None)"

text \<open>
  The position axis: for every pair the word is at least as long as the index and has
  the required letter at that 1-based index.
\<close>

definition positions_ok :: "positions \<Rightarrow> string \<Rightarrow> bool" where
  "positions_ok fp w = list_all (\<lambda>(i, ch). i \<le> int (length w) \<and> char_at1 w i = Some ch) fp"

text \<open>A word passes the checks that do not need the lexical database.\<close>

definition keeps :: "int option \<Rightarrow> int option \<Rightarrow> int option \<Rightarrow> positions \<Rightarrow> string \<Rightarrow> bool" where
  "keeps min_len max_len exact_len fp w =
     (w \<noteq> [] \<and> length_ok min_len max_len exact_len w \<and> positions_ok fp w)"

text \<open>
  The three categories, the tokens that name them (trimmed, in any case), and the tags
  of the lexical database a category stands for: an adjective is also a satellite
  adjective.
\<close>

datatype category = Noun | Verb | Adjective

definition pos_category :: "string \<Rightarrow> category option" where
  "pos_category t =
     (let s = lower (strip t) in
      if s = ''noun'' \<or> s = ''n'' then Some Noun
      else if s = ''verb'' \<or> s = ''v'' then Some Verb
      else if s = ''adjective'' \<or> s = ''adj'' \<or> s = ''a'' then Some Adjective
      else None)"

fun category_tags :: "category \<Rightarrow> string list" where
  "category_tags Noun = [''n'']"
| "category_tags Verb = [''v'']"
| "category_tags Adjective = [''a'', ''s'']"

definition valid_tokens :: "string list \<Rightarrow> bool" where
  "valid_tokens ps = list_all (\<lambda>t. pos_category t \<noteq> None) ps"

text \<open>
  The POS axis: the database has a sense of the word under a tag of one of the
  requested categories.
\<close>

definition pos_match :: "env \<Rightarrow> string list \<Rightarrow> string \<Rightarrow> bool" where
  "pos_match e ps w =
     list_ex (\<lambda>t. case pos_category t of None \<Rightarrow> False
                  | Some c \<Rightarrow> list_ex (synsets e w) (category_tags c)) ps"

text \<open>What \<open>desired\<close> gains from a token of a category.\<close>

fun add_tags :: "category \<Rightarrow> string list \<Rightarrow> string list" where
  "add_tags Noun d = set_add ''n'' d"
| "add_tags Verb d = set_add ''v'' d"
| "add_tags Adjective d = set_add ''s'' (set_add ''a'' d)"

text \<open>
  Two states of the lexical library used in the examples: one without the library, and
  one with the library installed, its data not yet fetched, and a small database.
\<close>

definition env_without_nltk :: env where
  "env_without_nltk =
     \<lparr>nltk_installed = False, wordnet_data = False, download_ok = False,
      synsets = (\<lambda>w p. False)\<rparr>"

definition env_fresh :: env where
  "env_fresh =
     \<lparr>nltk_installed = True, wordnet_data = False, download_ok = True,
      synsets = (\<lambda>w p. (w, p) \<in> set [(''abandon'', ''v''), (''ability'', ''n''), (''able'', ''s'')])\<rparr>"

section \<open>The checks of one word\<close>

lemmas keeps_defs = keeps_def length_ok_def positions_ok_def char_at1_def
lemmas env_defs = env_without_nltk_def env_fresh_def ensure_wordnet_def


lemma positions_items_loop_iff:
  "positions_items_loop w fp = positions_ok fp w"
  by (induction fp) (auto simp: positions_ok_def char_at1_def split: if_splits)

lemma word_matches_fixed_positions_iff:
  "word_matches_fixed_positions w fp = positions_ok fp w"
  by (cases fp) (simp_all add: word_matches_fixed_positions_def positions_items_loop_iff, simp add: positions_ok_def)

lemma filter_body_no_pos:
  "filter_body e w0 mn mx ex fp [] =
     Inr (if keeps mn mx ex fp (normalize w0) then Some (normalize w0) else None, e)"
  by (auto simp: filter_body_def keeps_def length_ok_def normalize_def Let_def
        word_matches_fixed_positions_iff split: option.splits)

lemma filter_body_rejected:
  "\<not> keeps mn mx ex fp (normalize w0) \<Longrightarrow> filter_body e w0 mn mx ex fp ps = Inr (None, e)"
  by (auto simp: filter_body_def keeps_def length_ok_def normalize_def Let_def
        word_matches_fixed_positions_iff split: option.splits)

lemma filter_body_kept:
  "keeps mn mx ex fp (normalize w0) \<Longrightarrow> ps \<noteq> [] \<Longrightarrow>
   filter_body e w0 mn mx ex fp ps =
     (case word_matches_pos e (normalize w0) ps of
        Inl err \<Rightarrow> Inl err
      | Inr (b, e') \<Rightarrow> if \<not> b then Inr (None, e') else Inr (Some (normalize w0), e'))"
  unfolding normalize_def
  by (auto simp: filter_body_def keeps_def length_ok_def Let_def
        word_matches_fixed_positions_iff split: option.splits)

section \<open>The lexical database and the tokens\<close>

lemma ensure_wordnet_Inr:
  "ensure_wordnet e = Inr e1 \<Longrightarrow> ensure_wordnet e1 = Inr e1 \<and> synsets e1 = synsets e"
  by (auto simp: ensure_wordnet_def split: if_splits)

lemma synsets_loop_iff: "synsets_loop e w d = list_ex (synsets e w) d"
  by (induction d) auto

lemma set_set_add: "set (set_add x s) = insert x (set s)"
  by (auto simp: set_add_def)

lemma set_add_tags: "set (add_tags c d) = set d \<union> set (category_tags c)"
  by (cases c) (auto simp: set_set_add)

lemma desired_loop_Cons:
  "desired_loop (t # ts) d =
     (case pos_category t of
        None \<Rightarrow> Inl (ValueError ''POS must be noun, verb, or adjective'')
      | Some c \<Rightarrow> desired_loop ts (add_tags c d))"
  by (simp add: pos_category_def Let_def)

lemma desired_loop_valid:
  "valid_tokens ts \<Longrightarrow>
   \<exists>d'. desired_loop ts d = Inr d' \<and>
        set d' = set d \<union> (\<Union>t\<in>set ts. set (category_tags (the (pos_category t))))"
proof (induction ts arbitrary: d)
  case Nil
  then show ?case by simp
next
  case (Cons t ts)
  from Cons.prems have rest: "valid_tokens ts" by (simp add: valid_tokens_def)
  from Cons.prems obtain c where c: "pos_category t = Some c" by (auto simp: valid_tokens_def)
  from Cons.IH [OF rest, of "add_tags c d"] obtain d' where
    d': "desired_loop ts (add_tags c d) = Inr d'"
        "set d' = set (add_tags c d) \<union> (\<Union>t\<in>set ts. set (category_tags (the (pos_category t))))"
    by blast
  have "desired_loop (t # ts) d = Inr d'"
    by (simp only: desired_loop_Cons c option.case d')
  moreover have "set d' = set d \<union> (\<Union>t\<in>set (t # ts). set (category_tags (the (pos_category t))))"
    using d'(2) c by (simp add: set_add_tags Un_assoc)
  ultimately show ?case by blast
qed

lemma desired_loop_invalid:
  "\<not> valid_tokens ts \<Longrightarrow>
   desired_loop ts d = Inl (ValueError ''POS must be noun, verb, or adjective'')"
proof (induction ts arbitrary: d)
  case Nil
  then show ?case by (simp add: valid_tokens_def)
next
  case (Cons t ts)
  show ?case
  proof (cases "pos_category t")
    case None
    then show ?thesis by (simp only: desired_loop_Cons option.case)
  next
    case (Some c)
    with Cons.prems have "\<not> valid_tokens ts" by (simp add: valid_tokens_def)
    from Cons.IH [OF this] Some show ?thesis by (simp only: desired_loop_Cons option.case)
  qed
qed

section \<open>Matching a word against the requested categories\<close>

lemma pos_match_iff:
  "valid_tokens ps \<Longrightarrow>
   pos_match e ps w = (\<exists>x\<in>(\<Union>t\<in>set ps. set (category_tags (the (pos_category t)))). synsets e w x)"
  by (induction ps) (auto simp: pos_match_def valid_tokens_def list_ex_iff)

lemma pos_match_synsets:
  "synsets e1 = synsets e \<Longrightarrow> pos_match e1 ps w = pos_match e ps w"
  by (simp add: pos_match_def cong: option.case_cong)

lemma word_matches_pos_available:
  assumes "ps \<noteq> []" and "ensure_wordnet e = Inr e1" and "valid_tokens ps"
  shows "word_matches_pos e w ps = Inr (pos_match e ps w, e1)"
proof -
  from desired_loop_valid [OF assms(3), of "[]"] obtain d where
    d: "desired_loop ps [] = Inr d"
       "set d = (\<Union>t\<in>set ps. set (category_tags (the (pos_category t))))"
    by auto
  have syn: "synsets e1 = synsets e"
    using ensure_wordnet_Inr [OF assms(2)] by simp
  have "list_ex (synsets e w) d = pos_match e ps w"
    unfolding pos_match_iff [OF assms(3)] list_ex_iff d(2) by (rule refl)
  then show ?thesis
    using assms(1,2) d(1) syn by (simp add: word_matches_pos_def synsets_loop_iff)
qed

lemma word_matches_pos_unavailable:
  "ps \<noteq> [] \<Longrightarrow> ensure_wordnet e = Inl err \<Longrightarrow> word_matches_pos e w ps = Inl err"
  by (simp add: word_matches_pos_def)

lemma word_matches_pos_invalid:
  "ps \<noteq> [] \<Longrightarrow> ensure_wordnet e = Inr e1 \<Longrightarrow> \<not> valid_tokens ps \<Longrightarrow>
   word_matches_pos e w ps = Inl (ValueError ''POS must be noun, verb, or adjective'')"
  by (simp add: word_matches_pos_def desired_loop_invalid)

section \<open>The loop of the filter engine\<close>

lemma filter_loop_no_pos:
  "filter_loop e ws mn mx ex fp [] res =
     Inr (res @ filter (keeps mn mx ex fp) (map normalize ws), e)"
  by (induction ws arbitrary: res) (simp_all add: filter_body_no_pos)

lemma filter_loop_none_kept:
  "\<not> list_ex (keeps mn mx ex fp) (map normalize ws) \<Longrightarrow>
   filter_loop e ws mn mx ex fp ps res = Inr (res, e)"
  by (induction ws arbitrary: res) (simp_all add: filter_body_rejected)

lemma filter_loop_fails:
  assumes "\<And>w. word_matches_pos e w ps = Inl err" and "ps \<noteq> []"
    and "list_ex (keeps mn mx ex fp) (map normalize ws)"
  shows "filter_loop e ws mn mx ex fp ps res = Inl err"
  using assms(3)
proof (induction ws arbitrary: res)
  case Nil
  then show ?case by simp
next
  case (Cons w0 ws)
  show ?case
  proof (cases "keeps mn mx ex fp (normalize w0)")
    case True
    then show ?thesis by (simp add: filter_body_kept [OF True assms(2)] assms(1))
  next
    case False
    with Cons.prems have "list_ex (keeps mn mx ex fp) (map normalize ws)" by simp
    from Cons.IH [OF this] show ?thesis by (simp add: filter_body_rejected [OF False])
  qed
qed

lemma filter_loop_available:
  assumes "ps \<noteq> []" and "valid_tokens ps"
  shows "ensure_wordnet e = Inr e1 \<Longrightarrow>
    filter_loop e ws mn mx ex fp ps res =
      Inr (res @ filter (\<lambda>w. keeps mn mx ex fp w \<and> pos_match e ps w) (map normalize ws),
           if list_ex (keeps mn mx ex fp) (map normalize ws) then e1 else e)"
proof (induction ws arbitrary: res e)
  case Nil
  then show ?case by simp
next
  case (Cons w0 ws)
  show ?case
  proof (cases "keeps mn mx ex fp (normalize w0)")
    case True
    from ensure_wordnet_Inr [OF Cons.prems] have e1: "ensure_wordnet e1 = Inr e1"
      and syn: "synsets e1 = synsets e" by simp_all
    have pm: "pos_match e1 ps = pos_match e ps"
      by (rule ext) (rule pos_match_synsets [OF syn])
    show ?thesis
      using True Cons.IH [OF e1]
      by (simp add: filter_body_kept [OF True assms(1)]
            word_matches_pos_available [OF assms(1) Cons.prems assms(2)] pm)
  next
    case False
    then show ?thesis
      using Cons.IH [OF Cons.prems] by (simp add: filter_body_rejected [OF False])
  qed
qed

lemma filter_words_outcome:
  "filter_words e words mn mx ex fp ps =
     (if ps = [] \<or> \<not> list_ex (keeps mn mx ex fp) (map normalize words)
      then Inr (filter (keeps mn mx ex fp) (map normalize words), e)
      else (case ensure_wordnet e of
              Inl err \<Rightarrow> Inl err
            | Inr e1 \<Rightarrow>
                if valid_tokens ps
                then Inr (filter (\<lambda>w. keeps mn mx ex fp w \<and> pos_match e ps w)
                            (map normalize words), e1)
                else Inl (ValueError ''POS must be noun, verb, or adjective'')))"
proof (cases "ps = []")
  case True
  then show ?thesis by (simp add: filter_words_def filter_loop_no_pos)
next
  case ps: False
  show ?thesis
  proof (cases "list_ex (keeps mn mx ex fp) (map normalize words)")
    case False
    then have "filter (keeps mn mx ex fp) (map normalize words) = []"
      by (auto simp: list_ex_iff filter_empty_conv)
    with False show ?thesis
      by (simp add: filter_words_def filter_loop_none_kept)
  next
    case K: True
    show ?thesis
    proof (cases "ensure_wordnet e")
      case (Inl err)
      then have "\<And>w. word_matches_pos e w ps = Inl err"
        using ps by (simp add: word_matches_pos_unavailable)
      from filter_loop_fails [OF this ps K] show ?thesis
        using ps K Inl by (simp add: filter_words_def)
    next
      case (Inr e1)
      show ?thesis
      proof (cases "valid_tokens ps")
        case True
        show ?thesis
          using ps K Inr True
          by (simp add: filter_words_def filter_loop_available [OF ps True Inr])
      next
        case False
        have "\<And>w. word_matches_pos e w ps =
                Inl (ValueError ''POS must be noun, verb, or adjective'')"
          by (rule word_matches_pos_invalid [OF ps Inr False])
        from filter_loop_fails [OF this ps K] show ?thesis
          using ps K Inr False by (simp add: filter_words_def)
      qed
    qed
  qed
qed

lemma valid_tokens_set: "set ps' = set ps \<Longrightarrow> valid_tokens ps' = valid_tokens ps"
  by (simp add: valid_tokens_def list_all_iff)

lemma pos_match_set: "set ps' = set ps \<Longrightarrow> pos_match e ps' w = pos_match e ps w"
  by (simp add: pos_match_def list_ex_iff)

lemma empty_set_eq: "set ps' = set ps \<Longrightarrow> (ps' = []) = (ps = [])"
  by (metis set_empty)

section \<open>Claims about the filter engine\<close>

text \<open>
  C1. For every word sequence and every parsed query, \<open>filter_words\<close> returns exactly
  the words that, trimmed and lowercased, are non-empty and satisfy every active
  constraint (length, fixed positions and, when categories are requested, the POS axis),
  in the order of the input: the result is the normalized input filtered by the
  conjunction of the three axes. A parsed query has valid category tokens, and when
  categories are requested the lexical database must be available. In particular, with
  no constraint at all the result is the normalized input in its order, without the
  entries that are blank, so every word of an input without blank entries.
\<close>

theorem filter_words_exactly_the_matches:
  assumes "ps = [] \<or> (ensure_wordnet e = Inr e1 \<and> valid_tokens ps)"
  shows "(\<exists>e'. filter_words e words mn mx ex fp ps =
            Inr (filter (\<lambda>w. keeps mn mx ex fp w \<and> (ps = [] \<or> pos_match e ps w))
                   (map normalize words), e')) \<and>
         filter_words e words None None None [] [] =
            Inr (filter (\<lambda>w. w \<noteq> []) (map normalize words), e) \<and>
         ((\<forall>w\<in>set words. normalize w \<noteq> []) \<longrightarrow>
            filter_words e words None None None [] [] = Inr (map normalize words, e))"
proof -
  have main: "\<exists>e'. filter_words e words mn mx ex fp ps =
            Inr (filter (\<lambda>w. keeps mn mx ex fp w \<and> (ps = [] \<or> pos_match e ps w))
                   (map normalize words), e')"
  proof (cases "ps = []")
    case True
    then show ?thesis by (simp add: filter_words_def filter_loop_no_pos)
  next
    case False
    with assms have av: "ensure_wordnet e = Inr e1" and val: "valid_tokens ps" by simp_all
    show ?thesis
      using False by (simp add: filter_words_def filter_loop_available [OF False val av])
  qed
  have unconstrained: "keeps None None None [] = (\<lambda>w. w \<noteq> [])"
    by (simp add: fun_eq_iff keeps_def length_ok_def positions_ok_def)
  have empty: "filter_words e words None None None [] [] =
            Inr (filter (\<lambda>w. w \<noteq> []) (map normalize words), e)"
    by (simp add: filter_words_def filter_loop_no_pos unconstrained)
  have "(\<forall>w\<in>set words. normalize w \<noteq> []) \<longrightarrow>
            filter (\<lambda>w. w \<noteq> []) (map normalize words) = map normalize words"
    by (simp add: filter_id_conv)
  with main empty show ?thesis by simp
qed

theorem filter_words_exactly_the_matches_witness:
  "ensure_wordnet env_fresh = Inr (env_fresh\<lparr>wordnet_data := True\<rparr>) \<and>
   valid_tokens [''Noun'', '' VERB ''] \<and>
   (\<exists>e'. filter_words env_fresh [''Abandon '', ''  '', ''ability'', ''able'']
            None (Some 7) None [(1, ''a'')] [''Noun'', '' VERB '']
          = Inr ([''abandon'', ''ability''], e'))"
proof -
  have h: "[''Noun'', '' VERB ''] = [] \<or>
           (ensure_wordnet env_fresh = Inr (env_fresh\<lparr>wordnet_data := True\<rparr>) \<and>
            valid_tokens [''Noun'', '' VERB ''])"
  proof -
    have "valid_tokens [''Noun'', '' VERB '']" by code_simp
    then show ?thesis by (simp add: env_defs)
  qed
  have l: "filter (\<lambda>w. keeps None (Some 7) None [(1, ''a'')] w \<and>
                       ([''Noun'', '' VERB ''] = [] \<or> pos_match env_fresh [''Noun'', '' VERB ''] w))
             (map normalize [''Abandon '', ''  '', ''ability'', ''able''])
           = [''abandon'', ''ability'']"
    by code_simp
  from filter_words_exactly_the_matches [OF h, of "[''Abandon '', ''  '', ''ability'', ''able'']"
      None "Some 7" None "[(1, ''a'')]"] h
  show ?thesis unfolding l by simp
qed

text \<open>
  C9. With an empty set of requested categories \<open>filter_words\<close> never consults the
  lexical database: for every state of the lexical library, also without the library,
  every word list and every length and position query, it returns the words that pass
  the length and position checks and leaves the state unchanged.
\<close>

theorem filter_words_without_pos_never_fails:
  "filter_words e words mn mx ex fp [] =
     Inr (filter (keeps mn mx ex fp) (map normalize words), e)"
  by (simp add: filter_words_def filter_loop_no_pos)

theorem filter_words_without_pos_never_fails_witness:
  "filter_words env_without_nltk [''Abandon '', ''  '', ''able''] None None (Some 7) [(1, ''a'')] []
     = Inr ([''abandon''], env_without_nltk)"
proof -
  have l: "filter (keeps None None (Some 7) [(1, ''a'')]) (map normalize [''Abandon '', ''  '', ''able''])
             = [''abandon'']"
    by code_simp
  from filter_words_without_pos_never_fails [of env_without_nltk
      "[''Abandon '', ''  '', ''able'']" None None "Some 7" "[(1, ''a'')]"]
  show ?thesis unfolding l .
qed

text \<open>
  C10. The availability of the lexical database is checked only for a word that has
  passed the length and position checks: when categories are requested, the library is
  not installed, and no word of the input passes those checks, \<open>filter_words\<close>
  returns the empty list instead of raising.
\<close>

theorem filter_words_no_candidate_no_check:
  assumes "\<not> nltk_installed e" and "ps \<noteq> []"
    and "\<not> list_ex (keeps mn mx ex fp) (map normalize words)"
  shows "filter_words e words mn mx ex fp ps = Inr ([], e)"
  using assms(3) by (simp add: filter_words_def filter_loop_none_kept)

theorem filter_words_no_candidate_no_check_witness:
  "\<not> nltk_installed env_without_nltk \<and> [''noun''] \<noteq> [] \<and>
   \<not> list_ex (keeps None None (Some 5) [] ) (map normalize [''abandon'', ''able'']) \<and>
   filter_words env_without_nltk [''abandon'', ''able''] None None (Some 5) [] [''noun'']
     = Inr ([], env_without_nltk)"
proof -
  have a: "\<not> nltk_installed env_without_nltk" by (simp add: env_defs)
  have b: "[''noun''] \<noteq> []" by simp
  have c: "\<not> list_ex (keeps None None (Some 5) []) (map normalize [''abandon'', ''able''])"
    by code_simp
  from filter_words_no_candidate_no_check [OF a b c] a c show ?thesis by simp
qed




text \<open>
  C8. Running the same query twice against the same words gives the same output: a pass
  that returned a list, run again from the state of the lexical library it left and with
  the requested categories iterated in any order, returns the same list and leaves the
  state as it is; a pass that raised raises the same error again, also from the state
  in which the data has been fetched.
\<close>

theorem filter_words_deterministic:
  assumes same: "set ps' = set ps"
  shows "(filter_words e words mn mx ex fp ps = Inr (res, e') \<longrightarrow>
            filter_words e' words mn mx ex fp ps' = Inr (res, e')) \<and>
         (filter_words e words mn mx ex fp ps = Inl err \<longrightarrow>
            filter_words e words mn mx ex fp ps' = Inl err \<and>
            (\<forall>e1. ensure_wordnet e = Inr e1 \<longrightarrow>
               filter_words e1 words mn mx ex fp ps' = Inl err))"
proof -
  note vt = valid_tokens_set [OF same]
  note em = empty_set_eq [OF same]
  have pm: "\<And>e. pos_match e ps' = pos_match e ps"
    by (rule ext) (rule pos_match_set [OF same])
  show ?thesis
  proof (cases "ps = [] \<or> \<not> list_ex (keeps mn mx ex fp) (map normalize words)")
    case True
    then have "ps' = [] \<or> \<not> list_ex (keeps mn mx ex fp) (map normalize words)"
      using em by simp
    with True show ?thesis
      by (simp add: filter_words_outcome)
  next
    case False
    then have F': "\<not> (ps' = [] \<or> \<not> list_ex (keeps mn mx ex fp) (map normalize words))"
      using em by simp
    show ?thesis
    proof (cases "ensure_wordnet e")
      case (Inl err0)
      with False F' show ?thesis by (simp add: filter_words_outcome)
    next
      case (Inr e1)
      from ensure_wordnet_Inr [OF Inr] have e1: "ensure_wordnet e1 = Inr e1"
        and syn: "synsets e1 = synsets e" by simp_all
      have pm1: "pos_match e1 ps = pos_match e ps"
        by (rule ext) (rule pos_match_synsets [OF syn])
      let ?out = "if valid_tokens ps
                  then Inr (filter (\<lambda>w. keeps mn mx ex fp w \<and> pos_match e ps w)
                              (map normalize words), e1)
                  else Inl (ValueError ''POS must be noun, verb, or adjective'')"
      have first: "filter_words e words mn mx ex fp ps = ?out"
        using False Inr by (simp add: filter_words_outcome)
      have again: "filter_words e words mn mx ex fp ps' = ?out"
        using F' Inr by (simp add: filter_words_outcome vt pm)
      have after: "filter_words e1 words mn mx ex fp ps' = ?out"
        using F' e1 by (simp add: filter_words_outcome vt pm pm1)
      show ?thesis
        unfolding first again using after Inr by (auto split: if_splits)
    qed
  qed
qed

theorem filter_words_deterministic_witness:
  "set [''v'', ''noun''] = set [''noun'', ''v''] \<and>
   filter_words env_fresh [''Abandon '', ''able''] None None None [] [''noun'', ''v'']
     = Inr ([''abandon''], env_fresh\<lparr>wordnet_data := True\<rparr>) \<and>
   filter_words (env_fresh\<lparr>wordnet_data := True\<rparr>) [''Abandon '', ''able''] None None None []
       [''v'', ''noun'']
     = Inr ([''abandon''], env_fresh\<lparr>wordnet_data := True\<rparr>)"
proof -
  have a: "set [''v'', ''noun''] = set [''noun'', ''v'']" by auto
  have b: "filter_words env_fresh [''Abandon '', ''able''] None None None [] [''noun'', ''v'']
     = Inr ([''abandon''], env_fresh\<lparr>wordnet_data := True\<rparr>)"
  proof -
    have k: "list_ex (keeps None None None []) (map normalize [''Abandon '', ''able''])"
      by code_simp
    have v: "valid_tokens [''noun'', ''v'']" by code_simp
    have l: "filter (\<lambda>w. keeps None None None [] w \<and> pos_match env_fresh [''noun'', ''v''] w)
               (map normalize [''Abandon '', ''able'']) = [''abandon'']"
      by code_simp
    show ?thesis
      unfolding filter_words_outcome l using k v by (simp add: env_defs)
  qed
  from filter_words_deterministic [OF a, of env_fresh "[''Abandon '', ''able'']" None None None "[]"
      "[''abandon'']" "env_fresh\<lparr>wordnet_data := True\<rparr>"] a b
  show ?thesis by simp
qed

section \<open>Claims about position matching\<close>

lemma parse_zero_index: "parse_positions_query ''0=a'' = Inr [(0, ''a'')]"
  by code_simp

text \<open>
  C5. A normalized word matches a set of position constraints if and only if for every
  pair of an index and a letter the word is at least as long as the index and its
  character at that 1-based index is the letter. A failing pair rejects the word
  whatever the pairs after it are. The query \<open>0=a\<close> parses, to the pair of index 0 and
  the letter a, and rejects every word when it is matched, since no word has a character
  at the 1-based index 0.
\<close>

theorem word_matches_fixed_positions_iff_all_pairs:
  "(word_matches_fixed_positions w fp \<longleftrightarrow>
      (\<forall>(i, ch)\<in>set fp. i \<le> int (length w) \<and> char_at1 w i = Some ch)) \<and>
   (\<not> (i \<le> int (length w) \<and> char_at1 w i = Some ch) \<longrightarrow>
      \<not> word_matches_fixed_positions w ((i, ch) # rest)) \<and>
   parse_positions_query ''0=a'' = Inr [(0, ''a'')] \<and>
   \<not> word_matches_fixed_positions w [(0, ''a'')]"
proof -
  have iff: "\<And>fp. word_matches_fixed_positions w fp \<longleftrightarrow>
      (\<forall>(i, ch)\<in>set fp. i \<le> int (length w) \<and> char_at1 w i = Some ch)"
    by (simp add: word_matches_fixed_positions_iff positions_ok_def list_all_iff)
  have short: "\<not> (i \<le> int (length w) \<and> char_at1 w i = Some ch) \<longrightarrow>
      \<not> word_matches_fixed_positions w ((i, ch) # rest)"
    by (auto simp: iff)
  have zero: "\<not> word_matches_fixed_positions w [(0, ''a'')]"
    by (simp add: iff char_at1_def)
  from iff [of fp] short zero parse_zero_index show ?thesis by blast
qed

theorem word_matches_fixed_positions_iff_all_pairs_witness:
  "word_matches_fixed_positions ''abandon'' [(1, ''a''), (3, ''a'')] \<and>
   char_at1 ''abandon'' 1 = Some ''a'' \<and> char_at1 ''abandon'' 3 = Some ''a'' \<and>
   char_at1 ''abandon'' 9 = None \<and>
   \<not> word_matches_fixed_positions ''abandon'' [(9, ''a''), (1, ''a'')]"
proof -
  have c: "char_at1 ''abandon'' 1 = Some ''a''" "char_at1 ''abandon'' 3 = Some ''a''"
    "char_at1 ''abandon'' 9 = None"
    by (simp_all add: char_at1_def)
  have a: "\<forall>(i, ch)\<in>set [(1, ''a''), (3, ''a'')].
       i \<le> int (length ''abandon'') \<and> char_at1 ''abandon'' i = Some ch"
    using c by simp
  have b: "\<not> (9 \<le> int (length ''abandon'') \<and> char_at1 ''abandon'' 9 = Some ''a'')"
    by simp
  from word_matches_fixed_positions_iff_all_pairs
         [of "''abandon''" "[(1, ''a''), (3, ''a'')]" 9 "''a''" "[(1, ''a'')]"] a b c
  show ?thesis by blast
qed

section \<open>Claims about part-of-speech matching\<close>



section \<open>Claims about the length query parser\<close>



lemma py_int_foldl_nonneg:
  "0 \<le> a \<Longrightarrow> 0 \<le> foldl (\<lambda>a c. 10 * a + int (code c - 48)) a s"
  by (induction s arbitrary: a) simp_all

lemma py_int_nonneg: "0 \<le> py_int s"
  by (simp add: py_int_def py_int_foldl_nonneg)

lemma digits_no_hyphen: "list_all is_digit s \<Longrightarrow> fullmatch_range s = None"
proof -
  assume "list_all is_digit s"
  then have d: "dropWhile is_digit s = []" by (simp add: list_all_iff)
  show ?thesis unfolding fullmatch_range_def d by simp
qed



text \<open>
  C3, as stated: every length constraint the parser returns satisfies the invariant of
  the data model. It fails for \<open>6-4\<close>, parsed to the minimum 6 and the maximum 4, and
  for \<open>0\<close>, parsed to the exact length 0.
\<close>

theorem parse_length_query_invariant_counterexample:
  "parse_length_query ''6-4'' = Inr (Some 6, Some 4, None) \<and>
   \<not> length_constraint_inv (Some 6, Some 4, None) \<and>
   parse_length_query ''0'' = Inr (None, None, Some 0) \<and>
   \<not> length_constraint_inv (None, None, Some 0)"
proof -
  have "parse_length_query ''6-4'' = Inr (Some 6, Some 4, None)" by code_simp
  moreover have "parse_length_query ''0'' = Inr (None, None, Some 0)" by code_simp
  ultimately show ?thesis by (simp add: length_constraint_inv_def)
qed

text \<open>
  C3, amended: in every length constraint the parser returns the exact value and the
  range are never both populated; none of them is populated exactly when the trimmed
  query is empty; and every value present is a non-negative integer. No order between
  the minimum and the maximum and no positivity of the exact value is enforced.
\<close>

theorem parse_length_query_shape:
  assumes "parse_length_query t = Inr (min_len, max_len, exact)"
  shows "(exact \<noteq> None \<longrightarrow> min_len = None \<and> max_len = None) \<and>
         (min_len = None \<and> max_len = None \<and> exact = None \<longleftrightarrow> strip t = []) \<and>
         (\<forall>n. exact = Some n \<or> min_len = Some n \<or> max_len = Some n \<longrightarrow> 0 \<le> n)"
  using assms py_int_nonneg
  by (auto simp: parse_length_query_def Let_def split: if_splits option.splits)

theorem parse_length_query_shape_witness:
  "parse_length_query ''6-4'' = Inr (Some 6, Some 4, None) \<and>
   strip ''6-4'' \<noteq> [] \<and> (0::int) \<le> 6 \<and> (0::int) \<le> 4"
proof -
  have a: "parse_length_query ''6-4'' = Inr (Some 6, Some 4, None)" by code_simp
  from parse_length_query_shape [OF a] a show ?thesis by simp
qed

section \<open>Claims about the position query parser\<close>

lemma equals_not_digit: "\<not> is_digit CHR ''=''"
  by (simp add: is_digit_def code_def)

lemma fullmatch_position_iff:
  "fullmatch_position p = Some (ds, l) \<longleftrightarrow>
     p = ds @ [CHR ''='', l] \<and> ds \<noteq> [] \<and> list_all is_digit ds \<and> is_ascii_letter l"
proof
  assume m: "fullmatch_position p = Some (ds, l)"
  then obtain e where d: "dropWhile is_digit p = [e, l]" and e: "e = CHR ''=''"
    and l: "is_ascii_letter l" and ds: "ds = takeWhile is_digit p" and ne: "ds \<noteq> []"
    by (auto simp: fullmatch_position_def split: list.splits if_splits)
  have "p = takeWhile is_digit p @ dropWhile is_digit p" by simp
  with d e ds have "p = ds @ [CHR ''='', l]" by simp
  moreover have "list_all is_digit ds"
    unfolding ds list_all_iff by (auto dest: set_takeWhileD)
  ultimately show "p = ds @ [CHR ''='', l] \<and> ds \<noteq> [] \<and> list_all is_digit ds \<and> is_ascii_letter l"
    using ne l by simp
next
  assume a: "p = ds @ [CHR ''='', l] \<and> ds \<noteq> [] \<and> list_all is_digit ds \<and> is_ascii_letter l"
  then have ds: "\<And>x. x \<in> set ds \<Longrightarrow> is_digit x" by (simp add: list_all_iff)
  have t: "takeWhile is_digit p = ds"
    using a ds equals_not_digit by simp
  have d: "dropWhile is_digit p = [CHR ''='', l]"
    using a ds equals_not_digit by simp
  show "fullmatch_position p = Some (ds, l)"
    unfolding fullmatch_position_def t d using a by simp
qed

lemma position_token_fullmatch:
  "position_token p = map_option (\<lambda>(ds, l). (py_int ds, lower [l])) (fullmatch_position p)"
proof (cases "fullmatch_position p")
  case None
  have "position_token p = None"
  proof (rule ccontr)
    assume "position_token p \<noteq> None"
    then obtain l rds where r: "rev p = l # CHR ''='' # rds" and l: "is_ascii_letter l"
      and ne: "rds \<noteq> []" and dg: "list_all is_digit rds"
      by (auto simp: position_token_def split: list.splits if_splits)
    from r have "p = rev rds @ [CHR ''='', l]"
      by (metis append.assoc append_Cons append_Nil rev.simps(2) rev_rev_ident)
    with l ne dg have "fullmatch_position p = Some (rev rds, l)"
      by (simp add: fullmatch_position_iff list_all_iff)
    with None show False by simp
  qed
  with None show ?thesis by simp
next
  case (Some a)
  obtain ds l where a: "a = (ds, l)" by (cases a)
  from Some a have "p = ds @ [CHR ''='', l] \<and> ds \<noteq> [] \<and> list_all is_digit ds \<and> is_ascii_letter l"
    by (simp add: fullmatch_position_iff)
  then have "position_token p = Some (py_int ds, [lower_char l])"
    by (simp add: position_token_def list_all_iff)
  with Some a show ?thesis by (simp add: lower_def)
qed

lemma positions_loop_outcome:
  "positions_loop parts m =
     (if list_all (\<lambda>p. position_token p \<noteq> None) (filter (\<lambda>p. p \<noteq> []) (map strip parts))
      then Inr (fold (\<lambda>(k, v). AList.update k v)
                  (map (\<lambda>p. the (position_token p)) (filter (\<lambda>p. p \<noteq> []) (map strip parts))) m)
      else Inl (ValueError ''Invalid positions. Use like 1=a,3=e''))"
proof (induction parts arbitrary: m)
  case Nil
  then show ?case by simp
next
  case (Cons part parts)
  show ?case
  proof (cases "strip part = []")
    case True
    then show ?thesis by (simp add: Cons.IH)
  next
    case False
    show ?thesis
    proof (cases "fullmatch_position (strip part)")
      case None
      then show ?thesis using False by (simp add: position_token_fullmatch)
    next
      case (Some a)
      obtain ds l where a: "a = (ds, l)" by (cases a)
      show ?thesis using False Some a by (simp add: position_token_fullmatch Cons.IH)
    qed
  qed
qed

lemma fold_update_map_of:
  "map_of (fold (\<lambda>(k, v). AList.update k v) kvs m) = map_of (rev kvs @ m)"
proof (induction kvs arbitrary: m)
  case Nil
  then show ?case by simp
next
  case (Cons kv kvs)
  obtain k v where kv: "kv = (k, v)" by (cases kv)
  show ?case
    by (simp add: kv Cons.IH update_conv' map_add_upd_left [symmetric] fun_eq_iff map_add_def
          split: option.splits)
qed

lemma fold_update_distinct:
  "distinct (map fst m) \<Longrightarrow> distinct (map fst (fold (\<lambda>(k, v). AList.update k v) kvs m))"
  by (induction kvs arbitrary: m) (auto simp: distinct_update)


lemma position_token_shape:
  "position_token p = Some (i, ch) \<longleftrightarrow>
     (\<exists>ds l. p = ds @ ''='' @ [l] \<and> ds \<noteq> [] \<and> list_all is_digit ds \<and> is_ascii_letter l \<and>
             i = py_int ds \<and> ch = lower [l])"
proof
  assume "position_token p = Some (i, ch)"
  then obtain ds l where "fullmatch_position p = Some (ds, l)" "i = py_int ds" "ch = lower [l]"
    by (auto simp: position_token_fullmatch)
  then show "\<exists>ds l. p = ds @ ''='' @ [l] \<and> ds \<noteq> [] \<and> list_all is_digit ds \<and>
                 is_ascii_letter l \<and> i = py_int ds \<and> ch = lower [l]"
    by (auto simp: fullmatch_position_iff)
next
  assume "\<exists>ds l. p = ds @ ''='' @ [l] \<and> ds \<noteq> [] \<and> list_all is_digit ds \<and>
                 is_ascii_letter l \<and> i = py_int ds \<and> ch = lower [l]"
  then obtain ds l where a: "p = ds @ [CHR ''='', l] \<and> ds \<noteq> [] \<and> list_all is_digit ds \<and>
                 is_ascii_letter l" and i: "i = py_int ds" and ch: "ch = lower [l]"
    by auto
  from a have "fullmatch_position p = Some (ds, l)"
    using fullmatch_position_iff [of p ds l] by blast
  then show "position_token p = Some (i, ch)"
    by (simp add: position_token_fullmatch i ch)
qed

lemma lower_ascii_letter:
  "is_ascii_letter l \<Longrightarrow> 97 \<le> code (lower_char l) \<and> code (lower_char l) \<le> 122"
  by (auto simp: is_ascii_letter_def lower_char_def is_upper_def code_def Let_def)

text \<open>
  C4. \<open>parse_positions_query\<close> maps a comma-separated string of tokens of the shape
  digits, equals sign, one letter to a map from the index to the lowercased letter. The
  empty string yields the empty map; empty segments are skipped; a later token of an
  index overwrites an earlier one, so the result is the map in which the last token of
  every index wins (\<open>map_of\<close> of the reversed list of pairs), and \<open>1=a,1=b\<close> yields
  the map of 1 to b; the letter is lowercased; and a segment of another shape, as in
  \<open>x=y\<close> or \<open>1=ab\<close>, fails with \<open>ValueError\<close>, no pair of the earlier segments being
  returned.
\<close>

theorem parse_positions_query_map:
  "(strip t = [] \<longrightarrow> parse_positions_query t = Inr []) \<and>
   (list_all (\<lambda>p. position_token p \<noteq> None) (segments t) \<longrightarrow>
      (\<exists>m. parse_positions_query t = Inr m \<and> distinct (map fst m) \<and>
           map_of m = map_of (rev (map (\<lambda>p. the (position_token p)) (segments t))))) \<and>
   (\<not> list_all (\<lambda>p. position_token p \<noteq> None) (segments t) \<longrightarrow>
      parse_positions_query t = Inl (ValueError ''Invalid positions. Use like 1=a,3=e'')) \<and>
   (position_token p = Some (i, ch) \<longleftrightarrow>
      (\<exists>ds l. p = ds @ ''='' @ [l] \<and> ds \<noteq> [] \<and> list_all is_digit ds \<and> is_ascii_letter l \<and>
              i = py_int ds \<and> ch = [lower_char l] \<and>
              97 \<le> code (lower_char l) \<and> code (lower_char l) \<le> 122)) \<and>
   parse_positions_query ''1=a,1=b'' = Inr [(1, ''b'')] \<and>
   parse_positions_query ''1=A'' = Inr [(1, ''a'')] \<and>
   parse_positions_query ''1=a,,3=e,'' = Inr [(1, ''a''), (3, ''e'')] \<and>
   parse_positions_query ''x=y'' = Inl (ValueError ''Invalid positions. Use like 1=a,3=e'') \<and>
   parse_positions_query ''1=ab'' = Inl (ValueError ''Invalid positions. Use like 1=a,3=e'') \<and>
   parse_positions_query ''1=a,x=y'' = Inl (ValueError ''Invalid positions. Use like 1=a,3=e'')"
proof -
  have blank: "strip t = [] \<longrightarrow> parse_positions_query t = Inr []"
    by (simp add: parse_positions_query_def)
  have seg_blank: "segments t = []" if s: "strip t = []"
  proof -
    have "strip [] = []" by (simp add: strip_def)
    then show ?thesis unfolding segments_def s by simp
  qed
  have out: "parse_positions_query t =
     (if list_all (\<lambda>p. position_token p \<noteq> None) (segments t)
      then Inr (fold (\<lambda>(k, v). AList.update k v)
                  (map (\<lambda>p. the (position_token p)) (segments t)) [])
      else Inl (ValueError ''Invalid positions. Use like 1=a,3=e''))"
  proof (cases "strip t = []")
    case True
    then show ?thesis by (simp add: parse_positions_query_def seg_blank)
  next
    case False
    then show ?thesis
      by (simp add: parse_positions_query_def positions_loop_outcome segments_def)
  qed
  have good: "list_all (\<lambda>p. position_token p \<noteq> None) (segments t) \<longrightarrow>
      (\<exists>m. parse_positions_query t = Inr m \<and> distinct (map fst m) \<and>
           map_of m = map_of (rev (map (\<lambda>p. the (position_token p)) (segments t))))"
    using fold_update_map_of [of "map (\<lambda>p. the (position_token p)) (segments t)" "[]"]
      fold_update_distinct [of "[]" "map (\<lambda>p. the (position_token p)) (segments t)"]
    by (simp add: out)
  have bad: "\<not> list_all (\<lambda>p. position_token p \<noteq> None) (segments t) \<longrightarrow>
      parse_positions_query t = Inl (ValueError ''Invalid positions. Use like 1=a,3=e'')"
    by (simp add: out)
  have shape: "position_token p = Some (i, ch) \<longleftrightarrow>
      (\<exists>ds l. p = ds @ ''='' @ [l] \<and> ds \<noteq> [] \<and> list_all is_digit ds \<and> is_ascii_letter l \<and>
              i = py_int ds \<and> ch = [lower_char l] \<and>
              97 \<le> code (lower_char l) \<and> code (lower_char l) \<le> 122)"
    unfolding position_token_shape using lower_ascii_letter by (auto simp: lower_def)
  have e1: "parse_positions_query ''1=a,1=b'' = Inr [(1, ''b'')]" by code_simp
  have e2: "parse_positions_query ''1=A'' = Inr [(1, ''a'')]" by code_simp
  have e3: "parse_positions_query ''1=a,,3=e,'' = Inr [(1, ''a''), (3, ''e'')]" by code_simp
  have e4: "parse_positions_query ''x=y'' = Inl (ValueError ''Invalid positions. Use like 1=a,3=e'')"
    by code_simp
  have e5: "parse_positions_query ''1=ab'' = Inl (ValueError ''Invalid positions. Use like 1=a,3=e'')"
    by code_simp
  have e6: "parse_positions_query ''1=a,x=y'' = Inl (ValueError ''Invalid positions. Use like 1=a,3=e'')"
    by code_simp
  from blank good bad shape e1 e2 e3 e4 e5 e6 show ?thesis by blast
qed

theorem parse_positions_query_map_witness:
  "list_all (\<lambda>p. position_token p \<noteq> None) (segments '' 2=B, 1=a,,2=c,'') \<and>
   (\<exists>m. parse_positions_query '' 2=B, 1=a,,2=c,'' = Inr m \<and> distinct (map fst m) \<and>
        map_of m = map_of [(2, ''c''), (1, ''a''), (2, ''b'')]) \<and>
   \<not> list_all (\<lambda>p. position_token p \<noteq> None) (segments ''1=a,3'') \<and>
   parse_positions_query ''1=a,3'' = Inl (ValueError ''Invalid positions. Use like 1=a,3=e'')"
proof -
  have a: "list_all (\<lambda>p. position_token p \<noteq> None) (segments '' 2=B, 1=a,,2=c,'')"
    by code_simp
  have l: "rev (map (\<lambda>p. the (position_token p)) (segments '' 2=B, 1=a,,2=c,''))
             = [(2, ''c''), (1, ''a''), (2, ''b'')]"
    by code_simp
  have b: "\<not> list_all (\<lambda>p. position_token p \<noteq> None) (segments ''1=a,3'')"
    by code_simp
  have g: "\<exists>m. parse_positions_query '' 2=B, 1=a,,2=c,'' = Inr m \<and> distinct (map fst m) \<and>
        map_of m = map_of [(2, ''c''), (1, ''a''), (2, ''b'')]"
    using parse_positions_query_map [of "'' 2=B, 1=a,,2=c,''"] a unfolding l by blast
  have h: "parse_positions_query ''1=a,3'' = Inl (ValueError ''Invalid positions. Use like 1=a,3=e'')"
    using parse_positions_query_map [of "''1=a,3''"] b by blast
  from a g b h show ?thesis by blast
qed

end
